theory Spec2Isabelle
  imports Main "HOL-Library.Word" "HOL-Library.AList"
begin

section \<open>Error score engine: \<open>PeerErrorHandler\<close>\<close>

text \<open>
  A \<open>peer.ID\<close> is a Go string. \<open>time.Time\<close> values are readings of the process clock
  in nanoseconds and a \<open>time.Duration\<close> is a number of nanoseconds; both are integers here
  (the saturation of \<open>Time.Sub\<close> at about 292 years is left out). Scores, weights and the
  threshold are \<open>uint64\<close>: addition wraps and comparison is unsigned.
\<close>

type_synonym peerID = string
type_synonym u64 = "64 word"
type_synonym time = int
type_synonym duration = int

text \<open>
  Modelled from the spec: package \<open>p2perrors\<close> is not among the sources. Its sentinel errors
  are the kinds of the specification's error taxonomy, under the names and in the order in
  which \<open>getScoreForError\<close> tests them. A Go error value is modelled by its \<open>Unwrap\<close> chain,
  outermost first; a link that is not one of the sentinels is \<open>ErrOther\<close> with its message.
  \<open>errors.Is err target\<close> holds when the target occurs in the chain.
\<close>

datatype p2perror =
    ErrTransactionApplication
  | ErrBlockApplication
  | ErrDeserialization
  | ErrBlockIrreversibility
  | ErrPeerRPC
  | ErrPeerRPCTimeout
  | ErrChainIDMismatch
  | ErrChainNotConnected
  | ErrCheckpointMismatch
  | ErrLocalRPC
  | ErrLocalRPCTimeout
  | ErrSerialization
  | ErrProcessRequestTimeout
  | ErrOther string

type_synonym error = "p2perror list"

definition errors_Is :: "error \<Rightarrow> p2perror \<Rightarrow> bool" where
  "errors_Is err target = (target \<in> set err)"

record PeerError =
  peerErr_id :: peerID
  peerErr_err :: error

record errorScoreRecord =
  lastUpdate :: time
  score :: u64

text \<open>
  Modelled from the spec: the declaration of \<open>options.PeerErrorHandlerOptions\<close> is not among
  the sources. The record has the fields that \<open>PeerErrorHandler\<close> reads: the threshold, the
  halflife (a duration) and one weight for each kind of error.
\<close>

record PeerErrorHandlerOptions =
  ErrorScoreThreshold :: u64
  ErrorScoreDecayHalflife :: duration
  TransactionApplicationErrorScore :: u64
  BlockApplicationErrorScore :: u64
  DeserializationErrorScore :: u64
  BlockIrreversibilityErrorScore :: u64
  PeerRPCErrorScore :: u64
  PeerRPCTimeoutErrorScore :: u64
  ChainIDMismatchErrorScore :: u64
  ChainNotConnectedErrorScore :: u64
  CheckpointMismatchErrorScore :: u64
  LocalRPCErrorScore :: u64
  LocalRPCTimeoutErrorScore :: u64
  SerializationErrorScore :: u64
  ProcessRequestTimeoutErrorScore :: u64
  UnknownErrorScore :: u64

text \<open>
  The state that the handler's goroutine owns: the map from peers to their records (each
  record is reached through one key only, so the pointers of the Go map are values here) and
  the options. The channels are the inputs and outputs of the functions below.
\<close>

record PeerErrorHandler =
  errorScores :: "peerID \<rightharpoonup> errorScoreRecord"
  opts :: PeerErrorHandlerOptions

text \<open>
  \<open>decayErrorScore\<close> computes the new score in \<open>float64\<close>:
  \<^verbatim>\<open>uint64(float64(score) * math.Exp(-1 * (math.Log(2) / float64(halflife)) * float64(elapsed)))\<close>.
  The rounding of \<open>float64\<close> and the results of \<open>math.Exp\<close> and \<open>math.Log\<close> belong to the Go
  runtime. That expression is the parameter \<open>fexp halflife score elapsed\<close> of the model;
  everything around it is the code's.
\<close>

type_synonym decay_kernel = "duration \<Rightarrow> u64 \<Rightarrow> duration \<Rightarrow> u64"

definition decayErrorScore ::
  "decay_kernel \<Rightarrow> PeerErrorHandlerOptions \<Rightarrow> time \<Rightarrow> errorScoreRecord \<Rightarrow> errorScoreRecord" where
  "decayErrorScore fexp os now record =
     record\<lparr>score := fexp (ErrorScoreDecayHalflife os) (score record) (now - lastUpdate record),
            lastUpdate := now\<rparr>"

definition getScoreForError :: "PeerErrorHandlerOptions \<Rightarrow> error \<Rightarrow> u64" where
  "getScoreForError os err =
    (if errors_Is err ErrTransactionApplication then TransactionApplicationErrorScore os
     else if errors_Is err ErrBlockApplication then BlockApplicationErrorScore os
     else if errors_Is err ErrDeserialization then DeserializationErrorScore os
     else if errors_Is err ErrBlockIrreversibility then BlockIrreversibilityErrorScore os
     else if errors_Is err ErrPeerRPC then PeerRPCErrorScore os
     else if errors_Is err ErrPeerRPCTimeout then PeerRPCTimeoutErrorScore os
     else if errors_Is err ErrChainIDMismatch then ChainIDMismatchErrorScore os
     else if errors_Is err ErrChainNotConnected then ChainNotConnectedErrorScore os
     else if errors_Is err ErrCheckpointMismatch then CheckpointMismatchErrorScore os
     else if errors_Is err ErrLocalRPC then LocalRPCErrorScore os
     else if errors_Is err ErrLocalRPCTimeout then LocalRPCTimeoutErrorScore os
     else if errors_Is err ErrSerialization then SerializationErrorScore os
     else if errors_Is err ErrProcessRequestTimeout then ProcessRequestTimeoutErrorScore os
     else UnknownErrorScore os)"


text \<open>
  \<open>handleCanConnect\<close> returns the reply and the handler, whose record for the peer has been
  decayed in place. \<open>now\<close> is the value of \<open>time.Now()\<close> during the call.
\<close>

definition handleCanConnect ::
  "decay_kernel \<Rightarrow> time \<Rightarrow> PeerErrorHandler \<Rightarrow> peerID \<Rightarrow> bool \<times> PeerErrorHandler" where
  "handleCanConnect fexp now p pid =
    (case errorScores p pid of
       Some record \<Rightarrow>
         (let record' = decayErrorScore fexp (opts p) now record
          in (score record' < ErrorScoreThreshold (opts p),
              p\<lparr>errorScores := (errorScores p)(pid \<mapsto> record')\<rparr>))
     | None \<Rightarrow> (True, p))"

text \<open>
  \<open>handleError\<close> returns the handler and, when the goroutine that offers the peer on
  \<open>disconnectPeerChan\<close> is started, the peer it offers.
\<close>

definition handleError ::
  "decay_kernel \<Rightarrow> time \<Rightarrow> PeerErrorHandler \<Rightarrow> PeerError \<Rightarrow> PeerErrorHandler \<times> peerID option" where
  "handleError fexp now p peerErr =
    (let record' =
       (case errorScores p (peerErr_id peerErr) of
          Some record \<Rightarrow>
            (let decayed = decayErrorScore fexp (opts p) now record
             in decayed\<lparr>score := score decayed + getScoreForError (opts p) (peerErr_err peerErr)\<rparr>)
        | None \<Rightarrow>
            \<lparr>lastUpdate = now, score = getScoreForError (opts p) (peerErr_err peerErr)\<rparr>);
       p' = p\<lparr>errorScores := (errorScores p)(peerErr_id peerErr \<mapsto> record')\<rparr>
     in (p', if ErrorScoreThreshold (opts p') \<le> score record'
             then Some (peerErr_id peerErr) else None))"


text \<open>
  A scenario: the threshold is 150, the halflife one minute and every weight 100, except
  300 for the three kinds that disconnect at once. \<open>halvingKernel\<close> stands for the
  \<open>float64\<close> expression in the scenario: it halves the score once for every whole halflife
  that has elapsed, which is the value of the expression at whole multiples of the halflife.
\<close>

definition minute :: duration where
  "minute = 60000000000"

definition scenarioOptions :: PeerErrorHandlerOptions where
  "scenarioOptions =
     \<lparr>ErrorScoreThreshold = 150,
      ErrorScoreDecayHalflife = minute,
      TransactionApplicationErrorScore = 100,
      BlockApplicationErrorScore = 100,
      DeserializationErrorScore = 100,
      BlockIrreversibilityErrorScore = 100,
      PeerRPCErrorScore = 100,
      PeerRPCTimeoutErrorScore = 100,
      ChainIDMismatchErrorScore = 300,
      ChainNotConnectedErrorScore = 300,
      CheckpointMismatchErrorScore = 300,
      LocalRPCErrorScore = 100,
      LocalRPCTimeoutErrorScore = 100,
      SerializationErrorScore = 100,
      ProcessRequestTimeoutErrorScore = 100,
      UnknownErrorScore = 100\<rparr>"

definition halvingKernel :: decay_kernel where
  "halvingKernel halflife s elapsed = drop_bit (nat (elapsed div halflife)) s"

definition scenarioHandler :: PeerErrorHandler where
  "scenarioHandler =
     \<lparr>errorScores = [''QmA'' \<mapsto> \<lparr>lastUpdate = 0, score = 100\<rparr>], opts = scenarioOptions\<rparr>"

text \<open>The same handler with the threshold at 100, the score of its one record.\<close>

definition strictHandler :: PeerErrorHandler where
  "strictHandler = scenarioHandler\<lparr>opts := scenarioOptions\<lparr>ErrorScoreThreshold := 100\<rparr>\<rparr>"

section \<open>Per-peer handler: \<open>PeerHandler\<close>\<close>

type_synonym u32 = "32 word"

record NodeUpdate =
  NodeHeight :: u64
  InterestStartHeight :: u64
  InterestNumBlocks :: u32

subsection \<open>\<open>nodeUpdateLoop\<close>\<close>

text \<open>
  The local variables of the loop. \<open>curValue\<close> is the variable \<open>value\<close> of the source; it
  keeps its last content after a delivery, and only \<open>hasValue\<close> says that it is pending.
\<close>

record nodeUpdateVars =
  curValue :: NodeUpdate
  hasValue :: bool

text \<open>
  One communication of the loop's \<open>select\<close>: a receive from \<open>nodeUpdateChan\<close>, the send of
  \<open>value\<close> on \<open>internalNodeUpdateChan\<close>, or \<open>ctx.Done()\<close>.
\<close>

datatype nodeUpdateComm =
    RecvNodeUpdate NodeUpdate
  | SendInternal
  | CtxDone

text \<open>
  The loop runs along the communications that its \<open>select\<close> statements perform, in order.
  The result is \<open>None\<close> when the list is not a run of the loop (the \<open>select\<close> of the
  branch without a pending value has no send case); otherwise it holds the updates sent on
  \<open>internalNodeUpdateChan\<close> in order, the variables, and whether the loop has returned. At
  the end of the list the loop is waiting in its \<open>select\<close>.
\<close>

fun nodeUpdateLoop ::
  "nodeUpdateVars \<Rightarrow> nodeUpdateComm list \<Rightarrow> (NodeUpdate list \<times> nodeUpdateVars \<times> bool) option" where
  "nodeUpdateLoop v [] = Some ([], v, False)"
| "nodeUpdateLoop v (c # cs) =
    (if hasValue v then
       (case c of
          RecvNodeUpdate u \<Rightarrow> nodeUpdateLoop (v\<lparr>curValue := u\<rparr>) cs
        | SendInternal \<Rightarrow>
            (case nodeUpdateLoop (v\<lparr>hasValue := False\<rparr>) cs of
               None \<Rightarrow> None
             | Some (sent, v', returned) \<Rightarrow> Some (curValue v # sent, v', returned))
        | CtxDone \<Rightarrow> Some ([], v, True))
     else
       (case c of
          RecvNodeUpdate u \<Rightarrow> nodeUpdateLoop (v\<lparr>curValue := u, hasValue := True\<rparr>) cs
        | SendInternal \<Rightarrow> None
        | CtxDone \<Rightarrow> Some ([], v, True)))"

text \<open>The variables at the start: \<open>var value NodeUpdate\<close> is the zero value.\<close>

definition nodeUpdateInit :: nodeUpdateVars where
  "nodeUpdateInit =
     \<lparr>curValue = \<lparr>NodeHeight = 0, InterestStartHeight = 0, InterestNumBlocks = 0\<rparr>,
      hasValue = False\<rparr>"

text \<open>The updates that the loop holds for the consumer.\<close>

definition buffered :: "nodeUpdateVars \<Rightarrow> NodeUpdate list" where
  "buffered v = (if hasValue v then [curValue v] else [])"

text \<open>
  The contract in the words of the specification, on the communications alone: what the
  consumer receives is, at each delivery, the update that arrived last; an update that is
  followed by another arrival is overwritten and is never delivered.
\<close>

fun lastValueWins :: "nodeUpdateComm list \<Rightarrow> NodeUpdate list" where
  "lastValueWins [] = []"
| "lastValueWins (CtxDone # cs) = []"
| "lastValueWins (RecvNodeUpdate u # SendInternal # cs) = u # lastValueWins cs"
| "lastValueWins (c # cs) = lastValueWins cs"

text \<open>
  What is pending for the consumer after the communications \<open>cs\<close>, again on the
  communications alone: the update of the last communication, when that is an arrival.
\<close>

definition pendingAfter :: "nodeUpdateComm list \<Rightarrow> NodeUpdate list" where
  "pendingAfter cs =
     (if cs = [] then [] else case last cs of RecvNodeUpdate u \<Rightarrow> [u] | _ \<Rightarrow> [])"

text \<open>A node update for the scenarios below: height \<open>n\<close>, interest in the 64 blocks above.\<close>

definition upd :: "nat \<Rightarrow> NodeUpdate" where
  "upd n = \<lparr>NodeHeight = of_nat n, InterestStartHeight = of_nat n + 1, InterestNumBlocks = 64\<rparr>"

subsection \<open>\<open>peerHandlerCycle\<close> and \<open>peerHandlerLoop\<close>\<close>

type_synonym multihash = "8 word list"

record BlockTopology =
  bt_id :: multihash
  bt_height :: u64
  bt_previous :: multihash

record PeerHasBlock =
  phb_peerID :: peerID
  phb_block :: BlockTopology

record GetTopologyAtHeightRequest =
  BlockHeight :: u64
  NumBlocks :: u32

record PeerHandler =
  peerID :: peerID
  lastNodeUpdate :: NodeUpdate

text \<open>
  \<open>peerHandlerCycle\<close>. The reply of the remote peer to the call of
  \<open>SyncService.GetTopologyAtHeight\<close> is the parameter \<open>call\<close>: an error, or the topologies of
  the response. \<open>ctxDone\<close> is \<open>Some k\<close> when \<open>ctx.Done()\<close> is chosen by the \<open>select\<close> after
  \<open>k\<close> messages have been sent on \<open>peerHasBlockChan\<close>. The result is the returned
  error and the messages sent.
\<close>

definition peerHandlerCycle ::
  "PeerHandler \<Rightarrow> (GetTopologyAtHeightRequest \<Rightarrow> error + BlockTopology list) \<Rightarrow> nat option
     \<Rightarrow> error option \<times> PeerHasBlock list" where
  "peerHandlerCycle h call ctxDone =
    (let req = \<lparr>BlockHeight = InterestStartHeight (lastNodeUpdate h),
                NumBlocks = InterestNumBlocks (lastNodeUpdate h)\<rparr>
     in case call req of
          Inl err \<Rightarrow> (Some err, [])
        | Inr topology \<Rightarrow>
            (None,
             map (\<lambda>b. \<lparr>phb_peerID = peerID h, phb_block = b\<rparr>)
               (case ctxDone of None \<Rightarrow> topology | Some k \<Rightarrow> take k topology)))"

text \<open>
  The closure \<open>doPeerCycle\<close> of \<open>peerHandlerLoop\<close>: the \<open>PeerError\<close>s it sends on \<open>errChan\<close>
  and the messages of the cycle. In the source the send on \<open>errChan\<close> is commented out, so
  the branch for an error returns without sending.
\<close>

definition doPeerCycle ::
  "PeerHandler \<Rightarrow> (GetTopologyAtHeightRequest \<Rightarrow> error + BlockTopology list) \<Rightarrow> nat option
     \<Rightarrow> PeerError list \<times> PeerHasBlock list" where
  "doPeerCycle h call ctxDone =
    (case peerHandlerCycle h call ctxDone of
       (Some err, sent) \<Rightarrow> ([], sent)
     | (None, sent) \<Rightarrow> ([], sent))"

section \<open>Connection manager: \<open>ConnectionManager\<close>\<close>

type_synonym addrInfo = string

definition maxSleepBackoff :: int where
  "maxSleepBackoff = 30"

text \<open>The function \<open>min\<close> of the source file.\<close>

definition min_int :: "int \<Rightarrow> int \<Rightarrow> int" where
  "min_int a b = (if a < b then a else b)"

subsection \<open>\<open>handleConnected\<close>, \<open>handleDisconnected\<close> and \<open>managerLoop\<close>\<close>

text \<open>
  The Go maps \<open>initialPeers\<close> and \<open>connectedPeers\<close> are association lists with one entry for
  each key (the code iterates over them; the order of a Go \<open>range\<close> is not fixed, and no
  result below depends on it). \<open>peerConnections\<close> holds every \<open>PeerConnection\<close> that the
  manager has created, in the order of creation, each with the peer it serves and whether
  it is running: \<open>Start\<close> has been called and its \<open>cancel\<close> has not. A
  \<open>peerConnectionContext\<close> in \<open>connectedPeers\<close> is the position of its \<open>PeerConnection\<close> in
  that list. \<open>reconnectTasks\<close> and \<open>disconnectSignals\<close> record the goroutines that
  \<open>handleDisconnected\<close> starts: a reconnection task for an address, and an offer of the peer on
  \<open>signalPeerDisconnectChan\<close>.

  Modelled from the spec: \<open>PeerConnection\<close>, the worker of a peer, is not among the sources.
  Of it the model has that a worker is created for one peer, runs from its \<open>Start\<close> and
  stops when its scope is cancelled.
\<close>

record ConnectionManager =
  initialPeers :: "(peerID \<times> addrInfo) list"
  connectedPeers :: "(peerID \<times> nat) list"
  peerConnections :: "(peerID \<times> bool) list"
  reconnectTasks :: "addrInfo list"
  disconnectSignals :: "peerID list"

text \<open>
  \<open>NewConnectionManager\<close>, for initial peers that are already parsed into a peer and its
  address: a later entry for the same peer replaces the earlier one.
\<close>

definition NewConnectionManager :: "(peerID \<times> addrInfo) list \<Rightarrow> ConnectionManager" where
  "NewConnectionManager peers =
     \<lparr>initialPeers = fold (\<lambda>(pid, addr). AList.update pid addr) peers [],
      connectedPeers = [],
      peerConnections = [],
      reconnectTasks = [],
      disconnectSignals = []\<rparr>"

text \<open>Calling the \<open>cancel\<close> function of the connection at position \<open>k\<close>.\<close>

definition cancel :: "nat \<Rightarrow> (peerID \<times> bool) list \<Rightarrow> (peerID \<times> bool) list" where
  "cancel k conns = (if k < length conns then conns[k := (fst (conns ! k), False)] else conns)"

definition handleConnected :: "ConnectionManager \<Rightarrow> peerID \<Rightarrow> ConnectionManager" where
  "handleConnected c pid =
    (case map_of (connectedPeers c) pid of
       None \<Rightarrow>
         c\<lparr>peerConnections := peerConnections c @ [(pid, True)],
           connectedPeers := AList.update pid (length (peerConnections c)) (connectedPeers c)\<rparr>
     | Some peerConn \<Rightarrow> c)"

definition handleDisconnected :: "ConnectionManager \<Rightarrow> peerID \<Rightarrow> ConnectionManager" where
  "handleDisconnected c pid =
    (case map_of (connectedPeers c) pid of
       Some peerConn \<Rightarrow>
         (let c1 = c\<lparr>peerConnections := cancel peerConn (peerConnections c),
                      connectedPeers := AList.delete pid (connectedPeers c)\<rparr>;
              c2 = (case map_of (initialPeers c1) pid of
                      Some addr \<Rightarrow> c1\<lparr>reconnectTasks := reconnectTasks c1 @ [addr]\<rparr>
                    | None \<Rightarrow> c1)
          in c2\<lparr>disconnectSignals := disconnectSignals c2 @ [pid]\<rparr>)
     | None \<Rightarrow> c)"

text \<open>
  The messages that the \<open>select\<close> of \<open>managerLoop\<close> receives, by the remote peer of their
  connection, and \<open>ctx.Done()\<close>.
\<close>

datatype managerComm =
    PeerConnected peerID
  | PeerDisconnected peerID
  | ManagerCtxDone

text \<open>
  \<open>managerLoop\<close> along the communications of its \<open>select\<close>: the manager at the end, and
  whether the loop has returned.
\<close>

fun managerLoop :: "ConnectionManager \<Rightarrow> managerComm list \<Rightarrow> ConnectionManager \<times> bool" where
  "managerLoop c [] = (c, False)"
| "managerLoop c (PeerConnected pid # ms) = managerLoop (handleConnected c pid) ms"
| "managerLoop c (PeerDisconnected pid # ms) = managerLoop (handleDisconnected c pid) ms"
| "managerLoop c (ManagerCtxDone # ms) =
     (c\<lparr>peerConnections := fold cancel (map snd (connectedPeers c)) (peerConnections c),
        connectedPeers := []\<rparr>, True)"

text \<open>The running workers of a peer.\<close>

definition workersOf :: "ConnectionManager \<Rightarrow> peerID \<Rightarrow> (peerID \<times> bool) list" where
  "workersOf c pid = filter (\<lambda>w. w = (pid, True)) (peerConnections c)"

subsection \<open>The reconnection task and \<open>connectInitialPeers\<close>\<close>

text \<open>
  A \<open>context.Context\<close> is the time at which it is cancelled, if ever. Time is counted in
  seconds from the start of the loop, and advances by the sleeps only. The host is the
  parameter \<open>host\<close>: \<open>host ctx t addr\<close> says whether \<open>c.host.Connect(ctx, addr)\<close>, called at
  time \<open>t\<close>, returns no error.
\<close>

type_synonym cancelCtx = "int option"
type_synonym host = "cancelCtx \<Rightarrow> int \<Rightarrow> addrInfo \<Rightarrow> bool"

text \<open>
  The variables of a retry loop: \<open>sleepTimeSeconds\<close>, and to observe the loop the time
  and the calls of \<open>Connect\<close> made so far, each with its time.
\<close>

record retryVars =
  sleepTimeSeconds :: int
  clock :: int
  connectLog :: "(int \<times> addrInfo) list"

text \<open>The last two statements of both loops: the sleep, then the new sleep time.\<close>

definition sleepAndBackOff :: "retryVars \<Rightarrow> retryVars" where
  "sleepAndBackOff v =
     v\<lparr>clock := clock v + sleepTimeSeconds v,
       sleepTimeSeconds := min_int maxSleepBackoff (sleepTimeSeconds v * 2)\<rparr>"

definition retryInit :: retryVars where
  "retryInit = \<lparr>sleepTimeSeconds = 1, clock = 0, connectLog = []\<rparr>"

text \<open>
  The goroutine that \<open>handleDisconnected\<close> starts for an initial peer: an endless \<open>for\<close> that
  returns when \<open>Connect\<close> succeeds. \<open>fuel\<close> bounds the number of iterations that are
  observed; the result says whether the goroutine has returned within them.
\<close>

fun reconnectTask :: "nat \<Rightarrow> host \<Rightarrow> cancelCtx \<Rightarrow> addrInfo \<Rightarrow> retryVars \<Rightarrow> retryVars \<times> bool" where
  "reconnectTask 0 host ctx addr v = (v, False)"
| "reconnectTask (Suc fuel) host ctx addr v =
    (let v1 = v\<lparr>connectLog := connectLog v @ [(clock v, addr)]\<rparr>
     in if host ctx (clock v) addr then (v1, True)
        else reconnectTask fuel host ctx addr (sleepAndBackOff v1))"

text \<open>
  \<open>connectInitialPeers\<close>. \<open>connectCycle\<close> is the body of its \<open>for\<close> loop, on the keys of
  \<open>peersToConnect\<close> and the variables above: it calls \<open>Connect\<close> for every entry of
  \<open>initialPeers\<close>, deletes the peers that connected from \<open>peersToConnect\<close>, sleeps and
  backs off.
\<close>

definition connectCycle ::
  "host \<Rightarrow> cancelCtx \<Rightarrow> (peerID \<times> addrInfo) list \<Rightarrow> peerID list \<times> retryVars \<Rightarrow> peerID list \<times> retryVars" where
  "connectCycle host ctx initial s =
    (case s of (peersToConnect, v) \<Rightarrow>
      (let newlyConnectedPeers = map fst (filter (\<lambda>(peer, addr). host ctx (clock v) addr) initial);
           v1 = v\<lparr>connectLog := connectLog v @ map (\<lambda>(peer, addr). (clock v, addr)) initial\<rparr>
       in (filter (\<lambda>peer. peer \<notin> set newlyConnectedPeers) peersToConnect, sleepAndBackOff v1)))"

partial_function (option) connectLoop ::
  "host \<Rightarrow> cancelCtx \<Rightarrow> (peerID \<times> addrInfo) list \<Rightarrow> peerID list \<times> retryVars \<Rightarrow> (peerID list \<times> retryVars) option" where
  "connectLoop host ctx initial s =
    (if fst s \<noteq> [] then connectLoop host ctx initial (connectCycle host ctx initial s)
     else Some s)"

definition connectInitialPeers ::
  "host \<Rightarrow> cancelCtx \<Rightarrow> ConnectionManager \<Rightarrow> (peerID list \<times> retryVars) option" where
  "connectInitialPeers host ctx c =
     connectLoop host ctx (initialPeers c) (map fst (initialPeers c), retryInit)"

text \<open>
  The schedule in the words of the specification: the first sleep is 1 second, every later
  one is the smaller of 30 seconds and twice the one before; the attempts are at the sums
  of the sleeps.
\<close>

fun backoff :: "nat \<Rightarrow> int" where
  "backoff 0 = 1"
| "backoff (Suc n) = min 30 (2 * backoff n)"

fun attemptTime :: "nat \<Rightarrow> int" where
  "attemptTime 0 = 0"
| "attemptTime (Suc n) = attemptTime n + backoff n"

text \<open>A seed that no call of \<open>Connect\<close> reaches, and one that is reachable from a time on.\<close>

definition unreachable :: host where
  "unreachable ctx t addr = False"

definition reachableFrom :: "int \<Rightarrow> host" where
  "reachableFrom t0 ctx t addr = (t0 \<le> t)"

text \<open>
  The invariant of the manager: \<open>connectedPeers\<close> has one entry for each of its peers,
  every entry is the position of a running connection for that peer, and every running
  connection is the entry of its peer.
\<close>

definition wellTracked :: "ConnectionManager \<Rightarrow> bool" where
  "wellTracked c =
     (distinct (map fst (connectedPeers c)) \<and>
      (\<forall>(p, k) \<in> set (connectedPeers c).
          k < length (peerConnections c) \<and> peerConnections c ! k = (p, True)) \<and>
      (\<forall>k < length (peerConnections c).
          snd (peerConnections c ! k) \<longrightarrow>
            (fst (peerConnections c ! k), k) \<in> set (connectedPeers c)))"

text \<open>A manager that tracks the one peer \<open>QmA\<close>.\<close>

definition trackedA :: ConnectionManager where
  "trackedA = \<lparr>initialPeers = [(''QmA'', ''/ip4/10.0.0.1/tcp/8888/p2p/QmA'')],
               connectedPeers = [(''QmA'', 0)],
               peerConnections = [(''QmA'', True)],
               reconnectTasks = [],
               disconnectSignals = []\<rparr>"

text \<open>
  A host that every call of \<open>Connect\<close> reaches as long as the context of the call is not
  cancelled, and a manager with one initial peer.
\<close>

definition cancelledHost :: host where
  "cancelledHost ctx t addr = (case ctx of None \<Rightarrow> True | Some d \<Rightarrow> t < d)"

definition seedManager :: ConnectionManager where
  "seedManager = NewConnectionManager [(''QmA'', ''/ip4/10.0.0.1/tcp/8888/p2p/QmA'')]"

section \<open>Gossip message IDs: \<open>generateMessageID\<close>\<close>

type_synonym byte = "8 word"

text \<open>The fields of a pub/sub message (\<open>pb.Message\<close>) that identify it and carry its payload.\<close>

record Message =
  From :: "byte list"
  Data :: "byte list"
  Seqno :: "byte list"

text \<open>
  The two alphabets of Go's package \<open>encoding/base64\<close>, and its \<open>Encoding.Encode\<close> for an
  encoding without padding (\<open>RawStdEncoding\<close>, \<open>RawURLEncoding\<close>): three bytes give four
  characters, a rest of two bytes gives three, a rest of one byte gives two.
\<close>

definition encodeStd :: string where
  "encodeStd = ''ABCDEFGHIJKLMNOPQRSTUVWXYZabcdefghijklmnopqrstuvwxyz0123456789+/''"

definition encodeURL :: string where
  "encodeURL = ''ABCDEFGHIJKLMNOPQRSTUVWXYZabcdefghijklmnopqrstuvwxyz0123456789-_''"

fun encode :: "string \<Rightarrow> byte list \<Rightarrow> string" where
  "encode enc (a # b # c # src) =
     (let val = unat a * 65536 + unat b * 256 + unat c
      in enc ! (val div 262144 mod 64) # enc ! (val div 4096 mod 64) #
         enc ! (val div 64 mod 64) # enc ! (val mod 64) # encode enc src)"
| "encode enc [a, b] =
     (let val = unat a * 65536 + unat b * 256
      in [enc ! (val div 262144 mod 64), enc ! (val div 4096 mod 64), enc ! (val div 64 mod 64)])"
| "encode enc [a] =
     (let val = unat a * 65536
      in [enc ! (val div 262144 mod 64), enc ! (val div 4096 mod 64)])"
| "encode enc [] = []"

definition RawStdEncoding :: "byte list \<Rightarrow> string" where
  "RawStdEncoding src = encode encodeStd src"

definition RawURLEncoding :: "byte list \<Rightarrow> string" where
  "RawURLEncoding src = encode encodeURL src"

text \<open>
  \<open>generateMessageID\<close>. The hash of Go's package \<open>crypto/sha256\<close> is the parameter \<open>sha256\<close>.
\<close>

definition generateMessageID :: "(byte list \<Rightarrow> byte list) \<Rightarrow> Message \<Rightarrow> string" where
  "generateMessageID sha256 msg = RawStdEncoding (sha256 (Data msg))"

text \<open>
  The characters in which the two alphabets differ, and the SHA-256 digest of the empty
  payload, \<open>e3b0c442 98fc1c14 9afbf4c8 996fb924 27ae41e4 649b934c a495991b 7852b855\<close>.
\<close>

definition urlToStd :: "char \<Rightarrow> char" where
  "urlToStd ch = (if ch = CHR ''-'' then CHR ''+'' else if ch = CHR ''_'' then CHR ''/'' else ch)"

definition sha256_empty :: "byte list" where
  "sha256_empty =
     [227, 176, 196, 66, 152, 252, 28, 20, 154, 251, 244, 200, 153, 111, 185, 36,
      39, 174, 65, 228, 100, 155, 147, 76, 164, 149, 153, 27, 120, 82, 184, 85]"

section \<open>The connection gate: \<open>CanConnect\<close>\<close>

text \<open>
  \<open>CanConnect\<close> runs on the caller's goroutine. It first sends the request on the
  unbuffered \<open>canConnectChan\<close>, outside any \<open>select\<close>: the send completes only when the
  goroutine of \<open>Start\<close> receives it, and that goroutine has returned once its own context
  is done. Then it waits in a \<open>select\<close> on \<open>resultChan\<close> and \<open>ctx.Done()\<close>. What the caller
  observes depends on the other goroutines through three facts: whether the handler
  receives the request, what \<open>resultChan\<close> holds when the \<open>select\<close> is evaluated, and
  whether \<open>ctx.Done()\<close> is closed then.
\<close>

record canConnectEnv =
  handlerReceives :: bool
  resultReady :: "bool option"
  ctxCancelled :: bool

datatype canConnectOutcome =
    Returns bool
  | BlocksOnSend
  | WaitsInSelect

text \<open>
  The outcomes that the Go runtime may produce. When both cases of the \<open>select\<close> can
  proceed, one of them is chosen at random; when none can, the \<open>select\<close> waits.
\<close>

definition CanConnect :: "canConnectEnv \<Rightarrow> canConnectOutcome list" where
  "CanConnect e =
    (if \<not> handlerReceives e then [BlocksOnSend]
     else case (resultReady e, ctxCancelled e) of
            (Some res, False) \<Rightarrow> [Returns res]
          | (None, True) \<Rightarrow> [Returns False]
          | (Some res, True) \<Rightarrow> [Returns res, Returns False]
          | (None, False) \<Rightarrow> [WaitsInSelect])"

section \<open>Properties of the error score engine\<close>

lemma decayErrorScore_lastUpdate: "lastUpdate (decayErrorScore fexp os now r) = now"
  by (simp add: decayErrorScore_def)

lemma decayErrorScore_score:
  "score (decayErrorScore fexp os now r) = fexp (ErrorScoreDecayHalflife os) (score r) (now - lastUpdate r)"
  by (simp add: decayErrorScore_def)


lemma handleError_other:
  "q \<noteq> peerErr_id pe \<Longrightarrow> errorScores (fst (handleError fexp now p pe)) q = errorScores p q"
  by (simp add: handleError_def Let_def)




lemma handleCanConnect_record:
  "errorScores (snd (handleCanConnect fexp now p pid)) pid =
     map_option (\<lambda>r. \<lparr>lastUpdate = now,
                        score = fexp (ErrorScoreDecayHalflife (opts p)) (score r) (now - lastUpdate r)\<rparr>)
       (errorScores p pid)"
  by (cases "errorScores p pid") (simp_all add: handleCanConnect_def Let_def decayErrorScore_def)


lemma handleCanConnect_reply:
  "fst (handleCanConnect fexp now p pid) =
     (errorScores p pid = None \<or>
      (\<exists>r. errorScores p pid = Some r \<and>
           fexp (ErrorScoreDecayHalflife (opts p)) (score r) (now - lastUpdate r)
             < ErrorScoreThreshold (opts p)))"
  by (cases "errorScores p pid") (simp_all add: handleCanConnect_def Let_def decayErrorScore_def)






text \<open>
  Claim C1. For every peer and every state of the error-score map, the reply that
  \<open>handleCanConnect\<close> computes is true exactly when the peer has no record, or the score of
  its record, once decayed over the time since its last update, is strictly below
  \<open>ErrorScoreThreshold\<close>; the record is left decayed, with the current clock as its last
  update.
\<close>

theorem handleCanConnect_iff:
  "fst (handleCanConnect fexp now p pid) =
     (errorScores p pid = None \<or>
      (\<exists>r. errorScores p pid = Some r \<and>
           fexp (ErrorScoreDecayHalflife (opts p)) (score r) (now - lastUpdate r)
             < ErrorScoreThreshold (opts p))) \<and>
   errorScores (snd (handleCanConnect fexp now p pid)) pid =
     map_option (\<lambda>r. \<lparr>lastUpdate = now,
                        score = fexp (ErrorScoreDecayHalflife (opts p)) (score r) (now - lastUpdate r)\<rparr>)
       (errorScores p pid)"
  using handleCanConnect_reply [of fexp now p pid] handleCanConnect_record [of fexp now p pid]
  by (rule conjI)

theorem handleCanConnect_iff_witness:
  "fst (handleCanConnect halvingKernel minute strictHandler ''QmA'') = True \<and>
   fst (handleCanConnect halvingKernel 0 strictHandler ''QmA'') = False \<and>
   fst (handleCanConnect halvingKernel minute strictHandler ''QmB'') = True \<and>
   errorScores (snd (handleCanConnect halvingKernel minute strictHandler ''QmA'')) ''QmA'' =
     Some \<lparr>lastUpdate = minute, score = 50\<rparr>"
proof -
  have rec: "errorScores strictHandler ''QmA'' = Some \<lparr>lastUpdate = 0, score = 100\<rparr>"
    "errorScores strictHandler ''QmB'' = None"
    by (simp_all add: strictHandler_def scenarioHandler_def)
  have o: "ErrorScoreDecayHalflife (opts strictHandler) = minute"
    "ErrorScoreThreshold (opts strictHandler) = 100"
    by (simp_all add: strictHandler_def scenarioOptions_def)
  have k: "halvingKernel minute 100 (minute - 0) = 50" "halvingKernel minute 100 (0 - 0) = 100"
    by (simp_all add: halvingKernel_def minute_def drop_bit_eq_div)
  from handleCanConnect_iff [of halvingKernel minute strictHandler "''QmA''"] rec o k
  have a: "fst (handleCanConnect halvingKernel minute strictHandler ''QmA'') = True"
    and d: "errorScores (snd (handleCanConnect halvingKernel minute strictHandler ''QmA'')) ''QmA'' =
              Some \<lparr>lastUpdate = minute, score = 50\<rparr>"
    by simp_all
  from handleCanConnect_iff [of halvingKernel 0 strictHandler "''QmA''"] rec o k
  have b: "fst (handleCanConnect halvingKernel 0 strictHandler ''QmA'') = False"
    by simp
  from handleCanConnect_iff [of halvingKernel minute strictHandler "''QmB''"] rec
  have c: "fst (handleCanConnect halvingKernel minute strictHandler ''QmB'') = True"
    by simp
  from a b c d show ?thesis by (intro conjI)
qed





section \<open>Properties of \<open>nodeUpdateLoop\<close>\<close>

lemma nodeUpdateLoop_sent:
  "nodeUpdateLoop v cs = Some (sent, v', returned) \<Longrightarrow>
     sent = lastValueWins (map RecvNodeUpdate (buffered v) @ cs)"
proof (induction cs arbitrary: v sent v' returned)
  case Nil
  then show ?case by (simp add: buffered_def)
next
  case (Cons c cs)
  show ?case
  proof (cases c)
    case (RecvNodeUpdate u)
    show ?thesis
    proof (cases "hasValue v")
      case True
      with Cons.prems RecvNodeUpdate
      have "nodeUpdateLoop (v\<lparr>curValue := u\<rparr>) cs = Some (sent, v', returned)" by simp
      from Cons.IH [OF this] True RecvNodeUpdate show ?thesis
        by (simp add: buffered_def)
    next
      case False
      with Cons.prems RecvNodeUpdate
      have "nodeUpdateLoop (v\<lparr>curValue := u, hasValue := True\<rparr>) cs = Some (sent, v', returned)" by simp
      from Cons.IH [OF this] False RecvNodeUpdate show ?thesis
        by (simp add: buffered_def)
    qed
  next
    case SendInternal
    with Cons.prems have hv: "hasValue v" by (auto split: if_splits)
    with Cons.prems SendInternal obtain sent' where
      run: "nodeUpdateLoop (v\<lparr>hasValue := False\<rparr>) cs = Some (sent', v', returned)"
      and sent: "sent = curValue v # sent'"
      by (auto split: option.splits)
    from Cons.IH [OF run] sent hv SendInternal show ?thesis
      by (simp add: buffered_def)
  next
    case CtxDone
    with Cons.prems show ?thesis
      by (cases "hasValue v") (auto simp: buffered_def)
  qed
qed

lemma nodeUpdateLoop_pending:
  "nodeUpdateLoop v cs = Some (sent, v', False) \<Longrightarrow>
     buffered v' = (if cs = [] then buffered v else pendingAfter cs)"
proof (induction cs arbitrary: v sent)
  case Nil
  then show ?case by simp
next
  case (Cons c cs)
  show ?case
  proof (cases c)
    case (RecvNodeUpdate u)
    show ?thesis
    proof (cases "hasValue v")
      case True
      with Cons.prems RecvNodeUpdate
      have "nodeUpdateLoop (v\<lparr>curValue := u\<rparr>) cs = Some (sent, v', False)" by simp
      from Cons.IH [OF this] True RecvNodeUpdate show ?thesis
        by (cases "cs = []") (simp_all add: buffered_def pendingAfter_def)
    next
      case False
      with Cons.prems RecvNodeUpdate
      have "nodeUpdateLoop (v\<lparr>curValue := u, hasValue := True\<rparr>) cs = Some (sent, v', False)"
        by simp
      from Cons.IH [OF this] RecvNodeUpdate show ?thesis
        by (cases "cs = []") (simp_all add: buffered_def pendingAfter_def)
    qed
  next
    case SendInternal
    with Cons.prems have hv: "hasValue v" by (auto split: if_splits)
    with Cons.prems SendInternal obtain sent' where
      run: "nodeUpdateLoop (v\<lparr>hasValue := False\<rparr>) cs = Some (sent', v', False)"
      by (auto split: option.splits)
    from Cons.IH [OF run] SendInternal show ?thesis
      by (cases "cs = []") (simp_all add: buffered_def pendingAfter_def)
  next
    case CtxDone
    with Cons.prems show ?thesis
      by (cases "hasValue v") auto
  qed
qed

text \<open>
  Claim C7. In every run of \<open>nodeUpdateLoop\<close> at most one update is buffered; an update
  that arrives while one is buffered replaces it, so the consumer receives exactly the
  updates that were the latest arrival at the time of a delivery, and the updates that were
  overwritten are never delivered. While the loop has not returned, what is buffered is the
  latest arrival, unless it has been delivered already.
\<close>

theorem nodeUpdateLoop_last_value_wins:
  assumes "nodeUpdateLoop nodeUpdateInit cs = Some (sent, v, returned)"
  shows "sent = lastValueWins cs \<and> length (buffered v) \<le> 1 \<and>
         (\<not> returned \<longrightarrow> buffered v = pendingAfter cs)"
proof (intro conjI impI)
  show "sent = lastValueWins cs"
    using nodeUpdateLoop_sent [OF assms] by (simp add: buffered_def nodeUpdateInit_def)
  show "length (buffered v) \<le> 1"
    by (simp add: buffered_def)
  assume "\<not> returned"
  with assms have "nodeUpdateLoop nodeUpdateInit cs = Some (sent, v, False)" by simp
  from nodeUpdateLoop_pending [OF this] show "buffered v = pendingAfter cs"
    by (simp add: buffered_def nodeUpdateInit_def pendingAfter_def)
qed

theorem nodeUpdateLoop_last_value_wins_witness:
  "nodeUpdateLoop nodeUpdateInit
     [RecvNodeUpdate (upd 1), RecvNodeUpdate (upd 2), RecvNodeUpdate (upd 3), SendInternal,
      RecvNodeUpdate (upd 4)] =
     Some ([upd 3], \<lparr>curValue = upd 4, hasValue = True\<rparr>, False) \<and>
   [upd 3] = lastValueWins
     [RecvNodeUpdate (upd 1), RecvNodeUpdate (upd 2), RecvNodeUpdate (upd 3), SendInternal,
      RecvNodeUpdate (upd 4)] \<and>
   length (buffered \<lparr>curValue = upd 4, hasValue = True\<rparr>) \<le> 1 \<and>
   buffered \<lparr>curValue = upd 4, hasValue = True\<rparr> = pendingAfter
     [RecvNodeUpdate (upd 1), RecvNodeUpdate (upd 2), RecvNodeUpdate (upd 3), SendInternal,
      RecvNodeUpdate (upd 4)]"
proof -
  have run: "nodeUpdateLoop nodeUpdateInit
     [RecvNodeUpdate (upd 1), RecvNodeUpdate (upd 2), RecvNodeUpdate (upd 3), SendInternal,
      RecvNodeUpdate (upd 4)] =
     Some ([upd 3], \<lparr>curValue = upd 4, hasValue = True\<rparr>, False)"
    by (simp add: nodeUpdateInit_def)
  note th = nodeUpdateLoop_last_value_wins [OF run]
  from th have "[upd 3] = lastValueWins
     [RecvNodeUpdate (upd 1), RecvNodeUpdate (upd 2), RecvNodeUpdate (upd 3), SendInternal,
      RecvNodeUpdate (upd 4)]" by (rule conjunct1)
  moreover from th have "length (buffered \<lparr>curValue = upd 4, hasValue = True\<rparr>) \<le> 1"
    by blast
  moreover from th have "buffered \<lparr>curValue = upd 4, hasValue = True\<rparr> = pendingAfter
     [RecvNodeUpdate (upd 1), RecvNodeUpdate (upd 2), RecvNodeUpdate (upd 3), SendInternal,
      RecvNodeUpdate (upd 4)]" by blast
  ultimately show ?thesis using run by blast
qed

section \<open>Properties of \<open>peerHandlerLoop\<close>\<close>

lemma doPeerCycle_errChan: "fst (doPeerCycle h call ctxDone) = []"
  by (simp add: doPeerCycle_def split: prod.splits option.splits)

lemma peerHandlerCycle_error:
  "call \<lparr>BlockHeight = InterestStartHeight (lastNodeUpdate h),
         NumBlocks = InterestNumBlocks (lastNodeUpdate h)\<rparr> = Inl err \<Longrightarrow>
   peerHandlerCycle h call ctxDone = (Some err, [])"
  by (simp add: peerHandlerCycle_def)

text \<open>
  Claim C8. When a cycle of a peer's worker fails, a \<open>PeerError\<close> with the peer's ID and the
  error is to be posted to the shared error channel. The code does not do it: for the peer
  \<open>QmPeerA\<close> whose call of \<open>GetTopologyAtHeight\<close> times out, \<open>peerHandlerCycle\<close> returns the
  error and \<open>doPeerCycle\<close> sends nothing on \<open>errChan\<close>.
\<close>

theorem doPeerCycle_drops_error:
  "peerHandlerCycle \<lparr>peerID = ''QmPeerA'', lastNodeUpdate = upd 100\<rparr>
      (\<lambda>req. Inl [ErrPeerRPCTimeout]) None = (Some [ErrPeerRPCTimeout], []) \<and>
   fst (doPeerCycle \<lparr>peerID = ''QmPeerA'', lastNodeUpdate = upd 100\<rparr>
      (\<lambda>req. Inl [ErrPeerRPCTimeout]) None) = []"
  by (simp add: peerHandlerCycle_def doPeerCycle_def)

section \<open>Properties of the connection manager\<close>

lemma wellTracked_New: "wellTracked (NewConnectionManager peers)"
  by (simp add: wellTracked_def NewConnectionManager_def)

lemma update_absent: "map_of al k = None \<Longrightarrow> AList.update k v al = al @ [(k, v)]"
  by (induction al) (auto split: if_splits)

lemma wellTracked_handleConnected:
  assumes "wellTracked c"
  shows "wellTracked (handleConnected c pid)"
proof (cases "map_of (connectedPeers c) pid")
  case (Some k)
  with assms show ?thesis by (simp add: handleConnected_def)
next
  case None
  then have notin: "pid \<notin> fst ` set (connectedPeers c)"
    by (simp add: map_of_eq_None_iff)
  have eq: "handleConnected c pid =
      c\<lparr>peerConnections := peerConnections c @ [(pid, True)],
        connectedPeers := connectedPeers c @ [(pid, length (peerConnections c))]\<rparr>"
    using None by (simp add: handleConnected_def update_absent)
  from assms notin show ?thesis
    unfolding eq wellTracked_def
    by (auto simp: nth_append less_Suc_eq)
qed

lemma wellTracked_handleDisconnected:
  assumes "wellTracked c"
  shows "wellTracked (handleDisconnected c pid)"
proof (cases "map_of (connectedPeers c) pid")
  case None
  with assms show ?thesis by (simp add: handleDisconnected_def)
next
  case (Some k)
  from assms have dist: "distinct (map fst (connectedPeers c))"
    and tracked: "\<And>p j. (p, j) \<in> set (connectedPeers c) \<Longrightarrow>
                    j < length (peerConnections c) \<and> peerConnections c ! j = (p, True)"
    and running: "\<And>j. j < length (peerConnections c) \<Longrightarrow> snd (peerConnections c ! j) \<Longrightarrow>
                    (fst (peerConnections c ! j), j) \<in> set (connectedPeers c)"
    unfolding wellTracked_def by auto
  from Some have mem: "(pid, k) \<in> set (connectedPeers c)" by (rule map_of_SomeD)
  from tracked [OF mem] have k: "k < length (peerConnections c)"
    and atk: "peerConnections c ! k = (pid, True)" by auto
  define conns where "conns = (peerConnections c)[k := (pid, False)]"
  define cp where "cp = AList.delete pid (connectedPeers c)"
  have cancel: "cancel k (peerConnections c) = conns"
    using k atk by (simp add: cancel_def conns_def)
  have set_cp: "set cp = {(p, j). (p, j) \<in> set (connectedPeers c) \<and> p \<noteq> pid}"
    by (auto simp: cp_def AList.delete_eq)
  have d: "distinct (map fst cp)"
    using dist by (simp add: cp_def AList.distinct_delete)
  have t: "\<forall>(p, j) \<in> set cp. j < length conns \<and> conns ! j = (p, True)"
  proof clarify
    fix p j assume "(p, j) \<in> set cp"
    then have pj: "(p, j) \<in> set (connectedPeers c)" and ne: "p \<noteq> pid"
      by (auto simp: set_cp)
    from tracked [OF pj] have j: "j < length (peerConnections c)"
      and atj: "peerConnections c ! j = (p, True)" by auto
    from atj atk ne have "j \<noteq> k" by auto
    with j atj show "j < length conns \<and> conns ! j = (p, True)"
      by (simp add: conns_def)
  qed
  have r: "\<forall>j < length conns. snd (conns ! j) \<longrightarrow> (fst (conns ! j), j) \<in> set cp"
  proof (intro allI impI)
    fix j assume j: "j < length conns" and run: "snd (conns ! j)"
    from j have j': "j < length (peerConnections c)" by (simp add: conns_def)
    from run j' have ne: "j \<noteq> k" by (auto simp: conns_def)
    with run have run': "snd (peerConnections c ! j)" by (simp add: conns_def)
    from running [OF j' run'] have m: "(fst (peerConnections c ! j), j) \<in> set (connectedPeers c)" .
    have "fst (peerConnections c ! j) \<noteq> pid"
    proof
      assume "fst (peerConnections c ! j) = pid"
      with m have "(pid, j) \<in> set (connectedPeers c)" by simp
      with mem dist have "j = k" by (meson eq_key_imp_eq_value)
      with ne show False by simp
    qed
    with m ne show "(fst (conns ! j), j) \<in> set cp"
      by (simp add: set_cp conns_def)
  qed
  have "handleDisconnected c pid =
      (let c1 = c\<lparr>peerConnections := conns, connectedPeers := cp\<rparr>;
           c2 = (case map_of (initialPeers c1) pid of
                   Some addr \<Rightarrow> c1\<lparr>reconnectTasks := reconnectTasks c1 @ [addr]\<rparr>
                 | None \<Rightarrow> c1)
       in c2\<lparr>disconnectSignals := disconnectSignals c2 @ [pid]\<rparr>)"
    using Some by (simp add: handleDisconnected_def cancel cp_def)
  with d t r show ?thesis
    by (simp add: wellTracked_def Let_def split: option.splits)
qed

lemma wellTracked_managerLoop:
  "wellTracked c \<Longrightarrow> \<not> snd (managerLoop c ms) \<Longrightarrow> wellTracked (fst (managerLoop c ms))"
proof (induction c ms rule: managerLoop.induct)
  case (1 c)
  then show ?case by simp
next
  case (2 c pid ms)
  then show ?case by (simp add: wellTracked_handleConnected)
next
  case (3 c pid ms)
  then show ?case by (simp add: wellTracked_handleDisconnected)
next
  case (4 c ms)
  then show ?case by simp
qed

lemma at_most_one_index:
  assumes "\<And>i j. i < length xs \<Longrightarrow> j < length xs \<Longrightarrow> P (xs ! i) \<Longrightarrow> P (xs ! j) \<Longrightarrow> i = j"
  shows "length (filter P xs) \<le> 1"
  using assms
proof (induction xs)
  case Nil
  then show ?case by simp
next
  case (Cons x xs)
  have step: "\<And>i j. i < length xs \<Longrightarrow> j < length xs \<Longrightarrow> P (xs ! i) \<Longrightarrow> P (xs ! j) \<Longrightarrow> i = j"
  proof -
    fix i j assume "i < length xs" "j < length xs" "P (xs ! i)" "P (xs ! j)"
    then have "Suc i = Suc j"
      by (intro Cons.prems) simp_all
    then show "i = j" by simp
  qed
  show ?case
  proof (cases "P x")
    case False
    with Cons.IH [OF step] show ?thesis by simp
  next
    case True
    have "filter P xs = []"
    proof (rule ccontr)
      assume "filter P xs \<noteq> []"
      then obtain y where "y \<in> set xs" "P y"
        by (metis filter_False)
      then obtain i where "i < length xs" "P (xs ! i)"
        by (auto simp: in_set_conv_nth)
      with True have "Suc i = 0"
        by (intro Cons.prems) simp_all
      then show False by simp
    qed
    with True show ?thesis by simp
  qed
qed

lemma wellTracked_workersOf:
  assumes "wellTracked c"
  shows "length (workersOf c pid) \<le> 1"
  unfolding workersOf_def
proof (rule at_most_one_index)
  fix i j
  assume i: "i < length (peerConnections c)" and j: "j < length (peerConnections c)"
    and wi: "peerConnections c ! i = (pid, True)" and wj: "peerConnections c ! j = (pid, True)"
  from assms i wi have "(pid, i) \<in> set (connectedPeers c)"
    unfolding wellTracked_def by force
  moreover from assms j wj have "(pid, j) \<in> set (connectedPeers c)"
    unfolding wellTracked_def by force
  moreover from assms have "distinct (map fst (connectedPeers c))"
    by (simp add: wellTracked_def)
  ultimately show "i = j" by (meson eq_key_imp_eq_value)
qed

lemma cancel_length: "length (cancel k conns) = length conns"
  by (simp add: cancel_def)

lemma cancel_running:
  "j < length conns \<Longrightarrow> cancel k conns ! j = (p, True) \<Longrightarrow> conns ! j = (p, True)"
  by (auto simp: cancel_def nth_list_update split: if_splits)

lemma fold_cancel_length: "length (fold cancel ks conns) = length conns"
  by (induction ks arbitrary: conns) (simp_all add: cancel_length)

lemma fold_cancel_running:
  "j < length conns \<Longrightarrow> fold cancel ks conns ! j = (p, True) \<Longrightarrow> conns ! j = (p, True)"
proof (induction ks arbitrary: conns)
  case Nil
  then show ?case by simp
next
  case (Cons k ks)
  from Cons.prems have "cancel k conns ! j = (p, True)"
    using Cons.IH [of "cancel k conns"] by (simp add: cancel_length)
  with Cons.prems(1) show ?case by (rule cancel_running)
qed

lemma managerLoop_workersOf:
  "wellTracked c \<Longrightarrow> length (workersOf (fst (managerLoop c ms)) pid) \<le> 1"
proof (induction c ms rule: managerLoop.induct)
  case (1 c)
  then show ?case using wellTracked_workersOf [of c pid] by simp
next
  case (2 c pid' ms)
  then show ?case by (simp add: wellTracked_handleConnected)
next
  case (3 c pid' ms)
  then show ?case by (simp add: wellTracked_handleDisconnected)
next
  case (4 c ms)
  have "length (filter (\<lambda>w. w = (pid, True))
          (fold cancel (map snd (connectedPeers c)) (peerConnections c))) \<le> 1"
  proof (rule at_most_one_index)
    fix i j
    let ?ws = "fold cancel (map snd (connectedPeers c)) (peerConnections c)"
    assume li: "i < length ?ws" and lj: "j < length ?ws"
      and ai: "?ws ! i = (pid, True)" and aj: "?ws ! j = (pid, True)"
    from li have i: "i < length (peerConnections c)" by (simp add: fold_cancel_length)
    from lj have j: "j < length (peerConnections c)" by (simp add: fold_cancel_length)
    from fold_cancel_running [OF i ai] have wi: "peerConnections c ! i = (pid, True)" .
    from fold_cancel_running [OF j aj] have wj: "peerConnections c ! j = (pid, True)" .
    from 4 i wi have "(pid, i) \<in> set (connectedPeers c)"
      unfolding wellTracked_def by force
    moreover from 4 j wj have "(pid, j) \<in> set (connectedPeers c)"
      unfolding wellTracked_def by force
    moreover from 4 have "distinct (map fst (connectedPeers c))"
      by (simp add: wellTracked_def)
    ultimately show "i = j" by (meson eq_key_imp_eq_value)
  qed
  then show ?case by (simp add: workersOf_def)
qed


text \<open>
  Claim C6. In every state that \<open>managerLoop\<close> reaches from a new manager, along any
  sequence of connected and disconnected messages, every peer has at most one running
  worker. \<open>handleConnected\<close> creates and starts a \<open>PeerConnection\<close> only for a peer that is
  not in \<open>connectedPeers\<close>; for a peer that is there it changes nothing.
\<close>

theorem managerLoop_one_worker_per_peer:
  "length (workersOf (fst (managerLoop (NewConnectionManager peers) ms)) pid) \<le> 1 \<and>
   (map_of (connectedPeers c) pid \<noteq> None \<longrightarrow> handleConnected c pid = c) \<and>
   (map_of (connectedPeers c) pid = None \<longrightarrow>
      peerConnections (handleConnected c pid) = peerConnections c @ [(pid, True)] \<and>
      map_of (connectedPeers (handleConnected c pid)) pid = Some (length (peerConnections c)))"
proof (intro conjI impI)
  show "length (workersOf (fst (managerLoop (NewConnectionManager peers) ms)) pid) \<le> 1"
    by (rule managerLoop_workersOf) (rule wellTracked_New)
next
  assume "map_of (connectedPeers c) pid \<noteq> None"
  then show "handleConnected c pid = c"
    by (auto simp: handleConnected_def)
next
  assume "map_of (connectedPeers c) pid = None"
  then show "peerConnections (handleConnected c pid) = peerConnections c @ [(pid, True)]"
    by (simp add: handleConnected_def)
next
  assume "map_of (connectedPeers c) pid = None"
  then show "map_of (connectedPeers (handleConnected c pid)) pid = Some (length (peerConnections c))"
    by (simp add: handleConnected_def update_conv')
qed

theorem managerLoop_one_worker_per_peer_witness:
  "managerLoop (NewConnectionManager [(''QmA'', ''/ip4/10.0.0.1/tcp/8888/p2p/QmA'')])
     [PeerConnected ''QmA''] = (trackedA, False) \<and>
   length (workersOf (fst (managerLoop (NewConnectionManager [(''QmA'', ''/ip4/10.0.0.1/tcp/8888/p2p/QmA'')])
     [PeerConnected ''QmA'', PeerConnected ''QmA'', PeerDisconnected ''QmA'', PeerConnected ''QmA'']))
     ''QmA'') \<le> 1 \<and>
   map_of (connectedPeers trackedA) ''QmA'' \<noteq> None \<and>
   handleConnected trackedA ''QmA'' = trackedA \<and>
   map_of (connectedPeers trackedA) ''QmB'' = None \<and>
   peerConnections (handleConnected trackedA ''QmB'') = [(''QmA'', True), (''QmB'', True)] \<and>
   map_of (connectedPeers (handleConnected trackedA ''QmB'')) ''QmB'' = Some 1"
proof -
  have run: "managerLoop (NewConnectionManager [(''QmA'', ''/ip4/10.0.0.1/tcp/8888/p2p/QmA'')])
     [PeerConnected ''QmA''] = (trackedA, False)"
    by (simp add: NewConnectionManager_def handleConnected_def trackedA_def)
  have a: "map_of (connectedPeers trackedA) ''QmA'' \<noteq> None"
    by (simp add: trackedA_def)
  have b: "map_of (connectedPeers trackedA) ''QmB'' = None"
    by (simp add: trackedA_def)
  have len: "length (peerConnections trackedA) = 1" "peerConnections trackedA = [(''QmA'', True)]"
    by (simp_all add: trackedA_def)
  note th1 = managerLoop_one_worker_per_peer
    [of "[(''QmA'', ''/ip4/10.0.0.1/tcp/8888/p2p/QmA'')]"
        "[PeerConnected ''QmA'', PeerConnected ''QmA'', PeerDisconnected ''QmA'', PeerConnected ''QmA'']"
        "''QmA''" trackedA]
  note th2 = managerLoop_one_worker_per_peer [of "[]" "[]" "''QmB''" trackedA]
  from th1 a have "handleConnected trackedA ''QmA'' = trackedA" by blast
  moreover from th2 b len
  have "peerConnections (handleConnected trackedA ''QmB'') = [(''QmA'', True), (''QmB'', True)]"
    and "map_of (connectedPeers (handleConnected trackedA ''QmB'')) ''QmB'' = Some 1"
    by simp_all
  moreover from th1 have "length (workersOf (fst (managerLoop
     (NewConnectionManager [(''QmA'', ''/ip4/10.0.0.1/tcp/8888/p2p/QmA'')])
     [PeerConnected ''QmA'', PeerConnected ''QmA'', PeerDisconnected ''QmA'', PeerConnected ''QmA'']))
     ''QmA'') \<le> 1" by (rule conjunct1)
  ultimately show ?thesis using run a b by blast
qed

section \<open>Properties of the retry loops\<close>

lemma min_int_min: "min_int a b = min a b"
  by (simp add: min_int_def min_def)

lemma sleepAndBackOff_schedule:
  "sleepAndBackOff \<lparr>sleepTimeSeconds = backoff n, clock = attemptTime n, connectLog = l\<rparr> =
     \<lparr>sleepTimeSeconds = backoff (Suc n), clock = attemptTime (Suc n), connectLog = l\<rparr>"
  by (simp add: sleepAndBackOff_def min_int_min maxSleepBackoff_def)

lemma reconnectTask_unreachable:
  "reconnectTask n unreachable ctx addr
      \<lparr>sleepTimeSeconds = backoff k, clock = attemptTime k, connectLog = l\<rparr> =
     (\<lparr>sleepTimeSeconds = backoff (k + n), clock = attemptTime (k + n),
       connectLog = l @ map (\<lambda>i. (attemptTime i, addr)) [k..<k + n]\<rparr>, False)"
proof (induction n arbitrary: k l)
  case 0
  show ?case by simp
next
  case (Suc n)
  have "reconnectTask (Suc n) unreachable ctx addr
          \<lparr>sleepTimeSeconds = backoff k, clock = attemptTime k, connectLog = l\<rparr> =
        reconnectTask n unreachable ctx addr
          \<lparr>sleepTimeSeconds = backoff (Suc k), clock = attemptTime (Suc k),
            connectLog = l @ [(attemptTime k, addr)]\<rparr>"
    using sleepAndBackOff_schedule [of k "l @ [(attemptTime k, addr)]"]
    by (simp add: unreachable_def Let_def)
  also have "\<dots> = (\<lparr>sleepTimeSeconds = backoff (Suc k + n), clock = attemptTime (Suc k + n),
       connectLog = (l @ [(attemptTime k, addr)]) @ map (\<lambda>i. (attemptTime i, addr)) [Suc k..<Suc k + n]\<rparr>, False)"
    by (rule Suc.IH)
  finally have run: "reconnectTask (Suc n) unreachable ctx addr
          \<lparr>sleepTimeSeconds = backoff k, clock = attemptTime k, connectLog = l\<rparr> =
        (\<lparr>sleepTimeSeconds = backoff (Suc k + n), clock = attemptTime (Suc k + n),
       connectLog = (l @ [(attemptTime k, addr)]) @ map (\<lambda>i. (attemptTime i, addr)) [Suc k..<Suc k + n]\<rparr>, False)" .
  show ?case by (subst run) (simp add: upt_conv_Cons del: upt_Suc)
qed

lemma connectCycle_schedule:
  "snd ((connectCycle host ctx initial ^^ n) (pending, retryInit)) =
     \<lparr>sleepTimeSeconds = backoff n, clock = attemptTime n,
      connectLog = concat (map (\<lambda>k. map (\<lambda>(peer, addr). (attemptTime k, addr)) initial) [0..<n])\<rparr>"
proof (induction n)
  case 0
  show ?case by (simp add: retryInit_def)
next
  case (Suc n)
  obtain p v where pv: "(connectCycle host ctx initial ^^ n) (pending, retryInit) = (p, v)"
    by (cases "(connectCycle host ctx initial ^^ n) (pending, retryInit)")
  with Suc.IH have v: "v = \<lparr>sleepTimeSeconds = backoff n, clock = attemptTime n,
      connectLog = concat (map (\<lambda>k. map (\<lambda>(peer, addr). (attemptTime k, addr)) initial) [0..<n])\<rparr>"
    by simp
  have "snd (connectCycle host ctx initial (p, v)) =
      sleepAndBackOff (v\<lparr>connectLog := connectLog v @ map (\<lambda>(peer, addr). (clock v, addr)) initial\<rparr>)"
    by (simp add: connectCycle_def Let_def)
  also have "\<dots> = \<lparr>sleepTimeSeconds = backoff (Suc n), clock = attemptTime (Suc n),
      connectLog = concat (map (\<lambda>k. map (\<lambda>(peer, addr). (attemptTime k, addr)) initial) [0..<n])
                   @ map (\<lambda>(peer, addr). (attemptTime n, addr)) initial\<rparr>"
    unfolding v using sleepAndBackOff_schedule by simp
  finally show ?case using pv by simp
qed

lemma backoff_5: "backoff 5 = 30"
  by code_simp

lemma backoff_capped: "backoff (n + 5) = 30"
proof (induction n)
  case 0
  show ?case by (simp add: backoff_5)
next
  case (Suc n)
  have "backoff (Suc n + 5) = min 30 (2 * backoff (n + 5))"
    by (simp only: add_Suc backoff.simps)
  with Suc.IH show ?case by simp
qed

lemma attemptTime_first: "map attemptTime [0..<8] = [0, 1, 3, 7, 15, 31, 61, 91]"
  by code_simp

lemma attemptTime_period: "attemptTime (n + 6) = attemptTime (n + 5) + 30"
proof -
  have "n + 6 = Suc (n + 5)" by simp
  then have "attemptTime (n + 6) = attemptTime (n + 5) + backoff (n + 5)"
    by (simp only: attemptTime.simps)
  then show ?thesis by (simp only: backoff_capped)
qed

text \<open>
  Claim C5. In the reconnection task of \<open>handleDisconnected\<close> and in the loop of
  \<open>connectInitialPeers\<close> the first sleep is 1 second and every later sleep is the smaller
  of 30 seconds and twice the sleep before. For a seed that is never reached the calls of
  \<open>Connect\<close> are at 0, 1, 3, 7, 15, 31 and 61 seconds, and from then on every 30 seconds.
\<close>

theorem backoff_schedule:
  "reconnectTask n unreachable ctx addr retryInit =
     (\<lparr>sleepTimeSeconds = backoff n, clock = attemptTime n,
       connectLog = map (\<lambda>k. (attemptTime k, addr)) [0..<n]\<rparr>, False) \<and>
   snd ((connectCycle host ctx initial ^^ n) (pending, retryInit)) =
     \<lparr>sleepTimeSeconds = backoff n, clock = attemptTime n,
      connectLog = concat (map (\<lambda>k. map (\<lambda>(peer, addr). (attemptTime k, addr)) initial) [0..<n])\<rparr> \<and>
   map attemptTime [0..<8] = [0, 1, 3, 7, 15, 31, 61, 91] \<and>
   backoff (n + 5) = 30 \<and>
   attemptTime (n + 6) = attemptTime (n + 5) + 30"
proof (intro conjI)
  show "reconnectTask n unreachable ctx addr retryInit =
     (\<lparr>sleepTimeSeconds = backoff n, clock = attemptTime n,
       connectLog = map (\<lambda>k. (attemptTime k, addr)) [0..<n]\<rparr>, False)"
    using reconnectTask_unreachable [of n ctx addr 0 "[]"] by (simp add: retryInit_def)
qed (rule connectCycle_schedule attemptTime_first backoff_capped attemptTime_period)+

theorem backoff_schedule_witness:
  "reconnectTask 7 unreachable None ''/ip4/10.0.0.1/tcp/8888/p2p/QmA'' retryInit =
     (\<lparr>sleepTimeSeconds = 30, clock = 91,
       connectLog = map (\<lambda>t. (t, ''/ip4/10.0.0.1/tcp/8888/p2p/QmA'')) [0, 1, 3, 7, 15, 31, 61]\<rparr>, False)"
proof -
  have "backoff 7 = 30" "attemptTime 7 = 91"
    "map (\<lambda>k. (attemptTime k, ''/ip4/10.0.0.1/tcp/8888/p2p/QmA'')) [0..<7] =
       map (\<lambda>t. (t, ''/ip4/10.0.0.1/tcp/8888/p2p/QmA'')) [0, 1, 3, 7, 15, 31, 61]"
    by code_simp+
  with backoff_schedule [of 7 None "''/ip4/10.0.0.1/tcp/8888/p2p/QmA''", THEN conjunct1]
  show ?thesis by (simp only:)
qed

lemma connectLoop_returns:
  assumes "connectLoop host ctx initial s = Some r"
  shows "\<exists>n. r = (connectCycle host ctx initial ^^ n) s \<and> fst r = []"
proof (rule connectLoop.raw_induct
    [where P = "\<lambda>host ctx initial s r. \<exists>n. r = (connectCycle host ctx initial ^^ n) s \<and> fst r = []",
     OF _ assms])
  fix loop :: "host \<Rightarrow> cancelCtx \<Rightarrow> (peerID \<times> addrInfo) list \<Rightarrow> peerID list \<times> retryVars
                 \<Rightarrow> (peerID list \<times> retryVars) option"
  fix host ctx initial s r
  assume IH: "\<And>host ctx initial s r. loop host ctx initial s = Some r \<Longrightarrow>
                \<exists>n. r = (connectCycle host ctx initial ^^ n) s \<and> fst r = []"
  assume eq: "(if fst s \<noteq> [] then loop host ctx initial (connectCycle host ctx initial s)
               else Some s) = Some r"
  show "\<exists>n. r = (connectCycle host ctx initial ^^ n) s \<and> fst r = []"
  proof (cases "fst s = []")
    case True
    with eq have "r = (connectCycle host ctx initial ^^ 0) s \<and> fst r = []" by simp
    then show ?thesis by blast
  next
    case False
    with eq have "loop host ctx initial (connectCycle host ctx initial s) = Some r" by simp
    from IH [OF this] obtain n where
      "r = (connectCycle host ctx initial ^^ n) (connectCycle host ctx initial s)" "fst r = []"
      by blast
    then have "r = (connectCycle host ctx initial ^^ Suc n) s \<and> fst r = []"
      by (simp add: funpow_swap1)
    then show ?thesis by blast
  qed
qed

lemma connectLoop_terminates:
  "fst ((connectCycle host ctx initial ^^ n) s) = [] \<Longrightarrow>
     \<exists>m\<le>n. connectLoop host ctx initial s = Some ((connectCycle host ctx initial ^^ m) s)"
proof (induction n arbitrary: s)
  case 0
  then have "connectLoop host ctx initial s = Some ((connectCycle host ctx initial ^^ 0) s)"
    by (subst connectLoop.simps) simp
  then show ?case by blast
next
  case (Suc n)
  show ?case
  proof (cases "fst s = []")
    case True
    then have "connectLoop host ctx initial s = Some ((connectCycle host ctx initial ^^ 0) s)"
      by (subst connectLoop.simps) simp
    then show ?thesis by blast
  next
    case False
    from Suc.prems
    have "fst ((connectCycle host ctx initial ^^ n) (connectCycle host ctx initial s)) = []"
      by (simp add: funpow_swap1)
    from Suc.IH [OF this] obtain m where m: "m \<le> n"
      and run: "connectLoop host ctx initial (connectCycle host ctx initial s) =
                  Some ((connectCycle host ctx initial ^^ m) (connectCycle host ctx initial s))"
      by blast
    from False have "connectLoop host ctx initial s =
        connectLoop host ctx initial (connectCycle host ctx initial s)"
      by (subst connectLoop.simps) simp
    with run have "connectLoop host ctx initial s = Some ((connectCycle host ctx initial ^^ Suc m) s)"
      by (simp add: funpow_swap1)
    with m show ?thesis by (meson Suc_le_mono)
  qed
qed

lemma connectCycle_pending:
  "fst (connectCycle host ctx initial (pending, v)) =
     filter (\<lambda>peer. peer \<notin> fst ` {pa \<in> set initial. host ctx (clock v) (snd pa)}) pending"
proof -
  have "set (map fst (filter (\<lambda>(peer, addr). host ctx (clock v) addr) initial)) =
          fst ` {pa \<in> set initial. host ctx (clock v) (snd pa)}"
    by (auto simp: image_iff)
  then show ?thesis
    by (simp add: connectCycle_def Let_def)
qed

lemma connectCycle_log:
  "connectLog (snd (connectCycle host ctx initial (pending, v))) =
     connectLog v @ map (\<lambda>(peer, addr). (clock v, addr)) initial"
  by (simp add: connectCycle_def Let_def sleepAndBackOff_def)

text \<open>
  When \<open>connectInitialPeers\<close> returns: exactly when, after some number of cycles,
  \<open>peersToConnect\<close> is empty. Each cycle calls \<open>Connect\<close> once for every entry of
  \<open>initialPeers\<close> and deletes from \<open>peersToConnect\<close> the peers whose call succeeded.
\<close>

lemma connectInitialPeers_returns_iff:
  "(\<exists>s. connectInitialPeers host ctx c = Some s) =
     (\<exists>n. fst ((connectCycle host ctx (initialPeers c) ^^ n) (map fst (initialPeers c), retryInit)) = []) \<and>
   fst (connectCycle host ctx initial (pending, v)) =
     filter (\<lambda>peer. peer \<notin> fst ` {pa \<in> set initial. host ctx (clock v) (snd pa)}) pending \<and>
   connectLog (snd (connectCycle host ctx initial (pending, v))) =
     connectLog v @ map (\<lambda>(peer, addr). (clock v, addr)) initial"
proof (intro conjI)
  show "(\<exists>s. connectInitialPeers host ctx c = Some s) =
     (\<exists>n. fst ((connectCycle host ctx (initialPeers c) ^^ n) (map fst (initialPeers c), retryInit)) = [])"
    unfolding connectInitialPeers_def
    using connectLoop_returns connectLoop_terminates by metis
qed (rule connectCycle_pending connectCycle_log)+

lemma attemptTime_nonneg: "0 \<le> attemptTime n \<and> 1 \<le> backoff n"
  by (induction n) auto

lemma cancelled_never_connects:
  "fst ((connectCycle cancelledHost (Some 0) initial ^^ n) (pending, retryInit)) = pending"
proof (induction n)
  case 0
  show ?case by simp
next
  case (Suc n)
  obtain p v where pv: "(connectCycle cancelledHost (Some 0) initial ^^ n) (pending, retryInit) = (p, v)"
    by (cases "(connectCycle cancelledHost (Some 0) initial ^^ n) (pending, retryInit)")
  with Suc.IH have p: "p = pending" by simp
  from pv connectCycle_schedule [of n cancelledHost "Some 0" initial pending]
  have "clock v = attemptTime n" by simp
  with attemptTime_nonneg [of n] have "\<And>addr. \<not> cancelledHost (Some 0) (clock v) addr"
    by (simp add: cancelledHost_def)
  then have "fst (connectCycle cancelledHost (Some 0) initial (p, v)) = p"
    by (simp add: connectCycle_pending)
  with pv p show ?case by simp
qed

lemma seed_live_context:
  "connectInitialPeers cancelledHost None seedManager =
     Some ([], \<lparr>sleepTimeSeconds = 2, clock = 1,
                connectLog = [(0, ''/ip4/10.0.0.1/tcp/8888/p2p/QmA'')]\<rparr>)"
proof -
  let ?init = "(map fst (initialPeers seedManager), retryInit)"
  have c: "connectCycle cancelledHost None (initialPeers seedManager) ?init =
      ([], \<lparr>sleepTimeSeconds = 2, clock = 1,
            connectLog = [(0, ''/ip4/10.0.0.1/tcp/8888/p2p/QmA'')]\<rparr>)"
    by (simp add: seedManager_def NewConnectionManager_def connectCycle_def retryInit_def
        sleepAndBackOff_def min_int_def maxSleepBackoff_def cancelledHost_def)
  have ne: "fst ?init \<noteq> []"
    by (simp add: seedManager_def NewConnectionManager_def)
  have "connectLoop cancelledHost None (initialPeers seedManager) ?init =
      connectLoop cancelledHost None (initialPeers seedManager)
        (connectCycle cancelledHost None (initialPeers seedManager) ?init)"
    using ne by (subst connectLoop.simps) simp
  also have "\<dots> = Some ([], \<lparr>sleepTimeSeconds = 2, clock = 1,
            connectLog = [(0, ''/ip4/10.0.0.1/tcp/8888/p2p/QmA'')]\<rparr>)"
    unfolding c by (subst connectLoop.simps) simp
  finally show ?thesis by (simp only: connectInitialPeers_def)
qed

text \<open>
  Claim C9. The loop of \<open>connectInitialPeers\<close> is to end when its pending set is empty,
  and also when its context is cancelled. The code does the first and not the second: the
  loop hands the context to \<open>Connect\<close> and never looks at it. With a context that is
  cancelled from the start, and a host that refuses a call under a cancelled context,
  \<open>connectInitialPeers\<close> for one initial peer does not return; with a context that is not
  cancelled the same call returns after its first cycle.
\<close>

theorem connectInitialPeers_cancelled_never_returns:
  "connectInitialPeers cancelledHost (Some 0) seedManager = None \<and>
   connectInitialPeers cancelledHost None seedManager =
     Some ([], \<lparr>sleepTimeSeconds = 2, clock = 1,
                connectLog = [(0, ''/ip4/10.0.0.1/tcp/8888/p2p/QmA'')]\<rparr>)"
proof
  show "connectInitialPeers cancelledHost (Some 0) seedManager = None"
  proof (rule ccontr)
    assume "connectInitialPeers cancelledHost (Some 0) seedManager \<noteq> None"
    then obtain s where "connectLoop cancelledHost (Some 0) (initialPeers seedManager)
          (map fst (initialPeers seedManager), retryInit) = Some s"
      by (auto simp: connectInitialPeers_def)
    from connectLoop_returns [OF this] obtain n where
      "fst ((connectCycle cancelledHost (Some 0) (initialPeers seedManager) ^^ n)
          (map fst (initialPeers seedManager), retryInit)) = []"
      by metis
    then have "map fst (initialPeers seedManager) = []"
      by (simp only: cancelled_never_connects)
    then show False
      by (simp add: seedManager_def NewConnectionManager_def)
  qed
qed (rule seed_live_context)

lemma seed_three_cycles:
  "(connectCycle (reachableFrom 3) None (initialPeers seedManager) ^^ 3)
      (map fst (initialPeers seedManager), retryInit) =
    ([], \<lparr>sleepTimeSeconds = 8, clock = 7,
          connectLog = map (\<lambda>t. (t, ''/ip4/10.0.0.1/tcp/8888/p2p/QmA'')) [0, 1, 3]\<rparr>)"
  by (simp add: seedManager_def NewConnectionManager_def connectCycle_def retryInit_def
      sleepAndBackOff_def min_int_def maxSleepBackoff_def reachableFrom_def eval_nat_numeral)

lemma connectInitialPeers_seed_returns:
  "fst ((connectCycle (reachableFrom 3) None (initialPeers seedManager) ^^ 3)
      (map fst (initialPeers seedManager), retryInit)) = [] \<and>
   (\<exists>s. connectInitialPeers (reachableFrom 3) None seedManager = Some s)"
proof -
  have "fst ((connectCycle (reachableFrom 3) None (initialPeers seedManager) ^^ 3)
      (map fst (initialPeers seedManager), retryInit)) = []"
    by (simp only: seed_three_cycles fst_conv)
  with connectInitialPeers_returns_iff [of "reachableFrom 3" None seedManager]
  show ?thesis by blast
qed

section \<open>Properties of \<open>generateMessageID\<close>\<close>

lemma length_encodeStd: "length encodeStd = 64"
  by (simp add: encodeStd_def)

lemma length_encodeURL: "length encodeURL = 64"
  by (simp add: encodeURL_def)

lemma encodeStd_urlToStd: "encodeStd = map urlToStd encodeURL"
  by (simp add: encodeStd_def encodeURL_def urlToStd_def)

lemma pad_notin_encodeStd: "CHR ''='' \<notin> set encodeStd"
  by (simp add: encodeStd_def)

lemma length_encode: "length (encode enc src) = (4 * length src + 2) div 3"
  by (induction enc src rule: encode.induct) (simp_all add: Let_def)

lemma set_encode: "length enc = 64 \<Longrightarrow> set (encode enc src) \<subseteq> set enc"
  by (induction enc src rule: encode.induct) (simp_all add: Let_def)

lemma encode_map: "length enc = 64 \<Longrightarrow> encode (map f enc) src = map f (encode enc src)"
  by (induction enc src rule: encode.induct) (simp_all add: Let_def)

lemma RawStd_RawURL: "RawStdEncoding src = map urlToStd (RawURLEncoding src)"
  by (simp add: RawStdEncoding_def RawURLEncoding_def encodeStd_urlToStd encode_map length_encodeURL)

lemma std_empty: "RawStdEncoding sha256_empty = ''47DEQpj8HBSa+/TImW+5JCeuQeRkm5NMpJWZG3hSuFU''"
  by (simp add: RawStdEncoding_def sha256_empty_def encodeStd_def)

lemma url_empty: "RawURLEncoding sha256_empty = ''47DEQpj8HBSa-_TImW-5JCeuQeRkm5NMpJWZG3hSuFU''"
  by (simp add: RawURLEncoding_def sha256_empty_def encodeURL_def)


text \<open>
  The claim C4 as it is written names the URL alphabet. The code encodes with
  \<open>base64.RawStdEncoding\<close>: for the empty payload, whose SHA-256 digest is \<open>sha256_empty\<close>,
  the ID has \<open>+\<close> and \<open>/\<close> where base64url has \<open>-\<close> and \<open>_\<close>.
\<close>

theorem generateMessageID_base64url_counterexample:
  "generateMessageID (\<lambda>data. sha256_empty) \<lparr>From = [], Data = [], Seqno = []\<rparr> =
     ''47DEQpj8HBSa+/TImW+5JCeuQeRkm5NMpJWZG3hSuFU'' \<and>
   RawURLEncoding sha256_empty = ''47DEQpj8HBSa-_TImW-5JCeuQeRkm5NMpJWZG3hSuFU'' \<and>
   generateMessageID (\<lambda>data. sha256_empty) \<lparr>From = [], Data = [], Seqno = []\<rparr> \<noteq>
     RawURLEncoding sha256_empty"
  by (simp add: generateMessageID_def std_empty url_empty)

text \<open>
  Claim C4, amended. \<open>generateMessageID\<close> returns the SHA-256 hash of the payload in base64
  with the standard alphabet and without padding: it is the base64url text with \<open>+\<close> for
  \<open>-\<close> and \<open>/\<close> for \<open>_\<close>, it has no \<open>=\<close>, and its length is that of the unpadded encoding.
  It depends on the payload only, so a message that comes back from the mesh has the ID
  that the sender computes from the payload.
\<close>

theorem generateMessageID_raw_std:
  "generateMessageID sha256 \<lparr>From = sender, Data = payload, Seqno = seqno\<rparr> =
     RawStdEncoding (sha256 payload) \<and>
   generateMessageID sha256 msg = map urlToStd (RawURLEncoding (sha256 (Data msg))) \<and>
   length (generateMessageID sha256 msg) = (4 * length (sha256 (Data msg)) + 2) div 3 \<and>
   CHR ''='' \<notin> set (generateMessageID sha256 msg)"
proof (intro conjI)
  show "generateMessageID sha256 \<lparr>From = sender, Data = payload, Seqno = seqno\<rparr> =
     RawStdEncoding (sha256 payload)"
    by (simp add: generateMessageID_def)
  show "generateMessageID sha256 msg = map urlToStd (RawURLEncoding (sha256 (Data msg)))"
    by (simp only: generateMessageID_def RawStd_RawURL)
  show "length (generateMessageID sha256 msg) = (4 * length (sha256 (Data msg)) + 2) div 3"
    by (simp only: generateMessageID_def RawStdEncoding_def length_encode)
  have "set (generateMessageID sha256 msg) \<subseteq> set encodeStd"
    unfolding generateMessageID_def RawStdEncoding_def
    by (rule set_encode) (rule length_encodeStd)
  with pad_notin_encodeStd show "CHR ''='' \<notin> set (generateMessageID sha256 msg)"
    by blast
qed

section \<open>Properties of \<open>CanConnect\<close>\<close>

lemma CanConnect_blocks:
  "\<not> handlerReceives e \<Longrightarrow> CanConnect e = [BlocksOnSend]"
  by (simp add: CanConnect_def)

lemma CanConnect_cancelled_no_reply:
  "handlerReceives e \<Longrightarrow> resultReady e = None \<Longrightarrow> ctxCancelled e \<Longrightarrow> CanConnect e = [Returns False]"
  by (simp add: CanConnect_def)

lemma CanConnect_cancelled_reply:
  "handlerReceives e \<Longrightarrow> resultReady e = Some res \<Longrightarrow> ctxCancelled e \<Longrightarrow>
     CanConnect e = [Returns res, Returns False]"
  by (simp add: CanConnect_def)

text \<open>
  Claim C10. With a context that is cancelled before the reply is received, \<open>CanConnect\<close>
  is to return false. The code does not always: when the context is cancelled and the
  handler's goroutine has returned, the send of the request never completes and
  \<open>CanConnect\<close> does not return at all; and when the reply is already in \<open>resultChan\<close>, the
  \<open>select\<close> may return it although the context is cancelled.
\<close>

theorem CanConnect_cancelled_blocks:
  "CanConnect \<lparr>handlerReceives = False, resultReady = None, ctxCancelled = True\<rparr> = [BlocksOnSend] \<and>
   Returns False \<notin> set (CanConnect \<lparr>handlerReceives = False, resultReady = None, ctxCancelled = True\<rparr>) \<and>
   Returns True \<in> set (CanConnect \<lparr>handlerReceives = True, resultReady = Some True, ctxCancelled = True\<rparr>)"
  by (simp add: CanConnect_def)

end
